theory Spec2Isabelle
  imports Complex_Main "HOL-Library.Sublist"
begin

section \<open>Strings and the regular expressions of parse.py\<close>

text \<open>
  A Python \<^verbatim>\<open>str\<close> is modelled as a \<^typ>\<open>string\<close> whose characters are read as
  code points below 256. The classes \<^verbatim>\<open>\w\<close>, \<^verbatim>\<open>\s\<close> and \<^verbatim>\<open>.\<close> of the \<^verbatim>\<open>re\<close> module
  are written out for that range.
\<close>

definition newline :: char where
  "newline = CHR 0x0A"

definition is_word :: "char \<Rightarrow> bool" where
  "is_word c = (let n = (of_char c :: nat) in
     (48 \<le> n \<and> n \<le> 57) \<or> (65 \<le> n \<and> n \<le> 90) \<or> n = 95 \<or> (97 \<le> n \<and> n \<le> 122) \<or>
     n = 170 \<or> n = 178 \<or> n = 179 \<or> n = 181 \<or> n = 185 \<or> n = 186 \<or>
     n = 188 \<or> n = 189 \<or> n = 190 \<or>
     (192 \<le> n \<and> n \<le> 214) \<or> (216 \<le> n \<and> n \<le> 246) \<or> 248 \<le> n)"

definition is_space :: "char \<Rightarrow> bool" where
  "is_space c = (let n = (of_char c :: nat) in
     (9 \<le> n \<and> n \<le> 13) \<or> (28 \<le> n \<and> n \<le> 32) \<or> n = 133 \<or> n = 160)"

definition is_dot :: "char \<Rightarrow> bool" where
  "is_dot c = (c \<noteq> newline)"

text \<open>
  The three patterns of the source are sequences of single-character tests, greedy
  stars over a character class, group parentheses and a final \<^verbatim>\<open>$\<close>. \<open>rmatch\<close>
  is the backtracking matcher of \<^verbatim>\<open>re.match\<close> on such a sequence: a star first takes
  as many characters as it can and gives them back one at a time; \<^verbatim>\<open>$\<close> holds at the
  end of the string and just before a newline that ends it. The result is the list
  of positions at which the groups open and close.
\<close>

datatype item = One "char \<Rightarrow> bool" | Many "char \<Rightarrow> bool" | Open | Close | Eol

fun rmatch :: "item list \<Rightarrow> string \<Rightarrow> nat \<Rightarrow> nat list \<Rightarrow> nat list option" where
  "rmatch [] s pos ms = Some (rev ms)"
| "rmatch (Eol # r) s pos ms =
     (if s = [] \<or> s = [newline] then rmatch r s pos ms else None)"
| "rmatch (Open # r) s pos ms = rmatch r s pos (pos # ms)"
| "rmatch (Close # r) s pos ms = rmatch r s pos (pos # ms)"
| "rmatch (One p # r) [] pos ms = None"
| "rmatch (One p # r) (c # cs) pos ms =
     (if p c then rmatch r cs (Suc pos) ms else None)"
| "rmatch (Many p # r) [] pos ms = rmatch r [] pos ms"
| "rmatch (Many p # r) (c # cs) pos ms =
     (if p c then
        (case rmatch (Many p # r) cs (Suc pos) ms of
           Some m \<Rightarrow> Some m
         | None \<Rightarrow> rmatch r (c # cs) pos ms)
      else rmatch r (c # cs) pos ms)"

fun groups :: "string \<Rightarrow> nat list \<Rightarrow> string list" where
  "groups s (a # b # ms) = take (b - a) (drop a s) # groups s ms"
| "groups s ms = []"

definition re_match :: "item list \<Rightarrow> string \<Rightarrow> string list option" where
  "re_match pat s = map_option (groups s) (rmatch pat s 0 [])"

text \<open>\<^verbatim>\<open>m.group(k)\<close> for \<open>k \<ge> 1\<close>.\<close>

definition group :: "string list \<Rightarrow> nat \<Rightarrow> string" where
  "group gs k = gs ! (k - 1)"

definition lit :: "string \<Rightarrow> item list" where
  "lit s = map (\<lambda>c. One (\<lambda>x. x = c)) s"

definition word_or_hyphen :: "char \<Rightarrow> bool" where
  "word_or_hyphen c = (is_word c \<or> c = CHR ''-'')"

definition hyphen_word_or_dot :: "char \<Rightarrow> bool" where
  "hyphen_word_or_dot c = (c = CHR ''-'' \<or> is_word c \<or> c = CHR ''.'')"

text \<open>\<^verbatim>\<open>^https://github.com/([\w-]+/[-\w\.]+)$\<close>; the dot of \<^verbatim>\<open>github.com\<close> is not
  escaped in the source, so it stands for any character but a newline.\<close>

definition reu :: "item list" where
  "reu = lit ''https://github'' @ [One is_dot] @ lit ''com/'' @
     [Open, One word_or_hyphen, Many word_or_hyphen, One (\<lambda>x. x = CHR ''/''),
      One hyphen_word_or_dot, Many hyphen_word_or_dot, Close, Eol]"

text \<open>\<^verbatim>\<open>^(#+) (.*)$\<close>\<close>

definition ret :: "item list" where
  "ret = [Open, One (\<lambda>x. x = CHR ''#''), Many (\<lambda>x. x = CHR ''#''), Close,
          One (\<lambda>x. x = CHR '' ''), Open, Many is_dot, Close, Eol]"

text \<open>\<^verbatim>\<open>^\s*- \[(.*)\]\((.*)\) - (.*)$\<close>\<close>

definition rex :: "item list" where
  "rex = [Many is_space] @ lit ''- ['' @ [Open, Many is_dot, Close] @ lit ''](''
         @ [Open, Many is_dot, Close] @ lit '') - '' @ [Open, Many is_dot, Close, Eol]"

text \<open>\<^verbatim>\<open>sub in s\<close> on strings.\<close>

fun contains :: "string \<Rightarrow> string \<Rightarrow> bool" where
  "contains [] sub = (sub = [])"
| "contains (c # cs) sub = (prefix sub (c # cs) \<or> contains cs sub)"

section \<open>The resolver and the fetcher\<close>

definition extract_repo :: "string \<Rightarrow> string" where
  "extract_repo url = (case re_match reu url of Some m \<Rightarrow> group m 1 | None \<Rightarrow> '''')"

definition get_cran_publication_date :: "string \<Rightarrow> string" where
  "get_cran_publication_date package_url =
     (if contains package_url ''cran.r-project.org'' then ''1999-01-01'' else '''')"

text \<open>
  The exceptions that leave a function of the program: \<^verbatim>\<open>Thread.start()\<close> raises
  \<^verbatim>\<open>RuntimeError\<close> when it is called a second time on the same object, \<^verbatim>\<open>list.pop()\<close>
  raises \<^verbatim>\<open>IndexError\<close> on an empty list, an operator applied to operands it is not
  defined for raises \<^verbatim>\<open>TypeError\<close>, and an attribute an object does not have raises
  \<^verbatim>\<open>AttributeError\<close>.
\<close>

datatype error = RuntimeError | IndexError | TypeError | AttributeError

text \<open>
  The client \<^verbatim>\<open>g\<close> is the PyGithub client made in line 13; it is outside the program.
  What one call of \<^verbatim>\<open>get_last_commit\<close> sees of it is the outcome of the \<^verbatim>\<open>try\<close> body
  at each pass of the loop (the formatted date of the newest commit, or the exception
  raised), and, in the handler of a rate limit, the reset time held by
  \<^verbatim>\<open>g.get_rate_limit().core.reset\<close> and the clock \<^verbatim>\<open>time.time()\<close>, each given by its
  number of seconds since the epoch. A \<^verbatim>\<open>GithubException\<close> carries its status and its
  \<^verbatim>\<open>data\<close>, which is the decoded body of the answer when that is a dictionary.
  Printing is left out, but not an exception raised while the text to print is built.
\<close>

datatype data = Dict "string \<rightharpoonup> string" | NoDict

datatype response =
    Commit string
  | RateLimitExceededException
  | GithubException int data
  | OtherException

record client =
  lookup :: "nat \<Rightarrow> response"
  reset :: "nat \<Rightarrow> real"
  now :: "nat \<Rightarrow> real"

text \<open>
  The reset time of the client is a \<^verbatim>\<open>datetime.datetime\<close>, the clock a \<^verbatim>\<open>float\<close>.
  \<open>minus_float x t\<close> is Python's \<^verbatim>\<open>x - t\<close> for a float \<open>t\<close>: a number when \<open>x\<close> is a
  number; a datetime has no difference with a float, and the float none with it.
\<close>

datatype pyvalue = Number real | Datetime real

fun minus_float :: "pyvalue \<Rightarrow> real \<Rightarrow> error + real" where
  "minus_float (Number x) t = Inr (x - t)"
| "minus_float (Datetime x) t = Inl TypeError"

text \<open>\<^verbatim>\<open>d.get(key, default)\<close>, which only a dictionary has.\<close>

fun data_get :: "data \<Rightarrow> string \<Rightarrow> string \<Rightarrow> error + string" where
  "data_get (Dict d) key dflt = Inr (case d key of Some v \<Rightarrow> v | None \<Rightarrow> dflt)"
| "data_get NoDict key dflt = Inl AttributeError"

text \<open>What a worker does that can be observed from outside, in order.\<close>

datatype event = GetRepo string | GetRateLimit | Sleep real

definition max_retries :: nat where
  "max_retries = 3"

definition base_delay :: nat where
  "base_delay = 1"

text \<open>The body of \<^verbatim>\<open>for attempt in range(max_retries)\<close>, over the attempts that are
  left; the empty list is the fall through to the final \<^verbatim>\<open>return ''\<close>. The result
  is the string returned, or the exception that leaves the function: one raised
  inside an \<^verbatim>\<open>except\<close> clause is not caught by the clauses beside it.\<close>

fun attempts :: "client \<Rightarrow> string \<Rightarrow> nat list \<Rightarrow> (error + string) \<times> event list" where
  "attempts g repo [] = (Inr '''', [])"
| "attempts g repo (attempt # rest) =
     (case lookup g attempt of
        Commit d \<Rightarrow> (Inr d, [GetRepo repo])
      | RateLimitExceededException \<Rightarrow>
          (let reset_time = Datetime (reset g attempt) in
           case minus_float reset_time (now g attempt) of
             Inl e \<Rightarrow> (Inl e, [GetRepo repo, GetRateLimit])
           | Inr difference \<Rightarrow>
               (let sleep_time = difference + 10;
                    (r, tr) = attempts g repo rest
                in (r, GetRepo repo # GetRateLimit # Sleep (max sleep_time 60) # tr)))
      | GithubException status dat \<Rightarrow>
          (if status = 404 then (Inr '''', [GetRepo repo])
           else if status = 403 then
             (let delay = base_delay * (2 ^ attempt);
                  (r, tr) = attempts g repo rest
              in (r, GetRepo repo # Sleep (real delay) # tr))
           else
             (case data_get dat ''message'' ''Unknown error'' of
                Inl e \<Rightarrow> (Inl e, [GetRepo repo])
              | Inr message \<Rightarrow> (Inr '''', [GetRepo repo])))
      | OtherException \<Rightarrow> (Inr '''', [GetRepo repo]))"

definition get_last_commit :: "client \<Rightarrow> string \<Rightarrow> (error + string) \<times> event list" where
  "get_last_commit g repo =
     (if repo = '''' then (Inr '''', []) else attempts g repo [0..<max_retries])"

record row =
  row_project :: string
  row_section :: string
  row_last_commit :: string
  row_url :: string
  row_description :: string
  row_github :: bool
  row_cran :: bool
  row_repo :: string

text \<open>\<^verbatim>\<open>Project.run\<close>: \<open>m\<close> holds the three groups of the line. The result is the
  dictionary stored in \<^verbatim>\<open>self.regs\<close>, or the exception that leaves \<^verbatim>\<open>run\<close> before
  anything is stored, and what the worker did.\<close>

definition run :: "client \<Rightarrow> string list \<Rightarrow> string \<Rightarrow> (error + row) \<times> event list" where
  "run g m sect =
     (let is_github = contains (group m 2) ''github.com'';
          is_cran = contains (group m 2) ''cran.r-project.org'';
          repo = extract_repo (group m 2);
          (fetched, tr) =
             (if is_cran \<and> repo = ''''
              then (Inr (get_cran_publication_date (group m 2)), [])
              else get_last_commit g repo)
      in (case fetched of
            Inl e \<Rightarrow> Inl e
          | Inr last_commit \<Rightarrow>
              Inr \<lparr>row_project = group m 1, row_section = sect,
                   row_last_commit = last_commit,
                   row_url = group m 2, row_description = group m 3,
                   row_github = is_github, row_cran = is_cran, row_repo = repo\<rparr>,
          Sleep (1 / 10) # tr))"

section \<open>Threads, the reading loop and the batch loop\<close>

text \<open>
  A \<^verbatim>\<open>Project\<close> is a \<^verbatim>\<open>threading.Thread\<close>. Of the thread object the program uses
  \<^verbatim>\<open>start()\<close>, which raises \<^verbatim>\<open>RuntimeError\<close> when it is called a second time on the
  same object, and \<^verbatim>\<open>is_alive()\<close>.
\<close>

record project =
  p_match :: "string list"
  p_section :: string
  p_started :: bool

definition Project :: "string list \<Rightarrow> string \<Rightarrow> project" where
  "Project m sect = \<lparr>p_match = m, p_section = sect, p_started = False\<rparr>"

definition start :: "project \<Rightarrow> error + project" where
  "start p = (if p_started p then Inl RuntimeError else Inr (p\<lparr>p_started := True\<rparr>))"

text \<open>
  The workers run beside the main thread. What the main thread can see of worker
  \<open>k\<close> is fixed by the world it runs in: the answers the client gives that worker,
  and the number of seconds of the main thread's clock after which the worker has
  ended (\<open>None\<close>: it never ends). \<^verbatim>\<open>self.regs\<close> is \<^verbatim>\<open>None\<close> until \<^verbatim>\<open>run\<close> has stored
  its dictionary, and stays \<^verbatim>\<open>None\<close> when \<^verbatim>\<open>run\<close> ends with an exception.
\<close>

record world =
  client_of :: "nat \<Rightarrow> client"
  lifetime :: "nat \<Rightarrow> nat option"

definition is_alive :: "world \<Rightarrow> nat \<Rightarrow> nat \<Rightarrow> project \<Rightarrow> bool" where
  "is_alive w t k p =
     (p_started p \<and> (case lifetime w k of None \<Rightarrow> True | Some d \<Rightarrow> t < d))"

definition regs :: "world \<Rightarrow> nat \<Rightarrow> nat \<Rightarrow> project \<Rightarrow> row option" where
  "regs w t k p =
     (if p_started p \<and> \<not> is_alive w t k p
      then (case fst (run (client_of w k) (p_match p) (p_section p)) of
              Inl e \<Rightarrow> None
            | Inr r \<Rightarrow> Some r)
      else None)"

record state =
  projects :: "project list"
  m_titles :: "string list"
  last_head_level :: nat
  clock :: nat

definition init :: state where
  "init = \<lparr>projects = [], m_titles = [], last_head_level = 0, clock = 0\<rparr>"

text \<open>\<^verbatim>\<open>sep.join(xs)\<close>\<close>

fun join :: "string \<Rightarrow> string list \<Rightarrow> string" where
  "join sep [] = []"
| "join sep [x] = x"
| "join sep (x # y # ys) = x @ sep @ join sep (y # ys)"

text \<open>\<^verbatim>\<open>for n in range(k): m_titles.pop()\<close>\<close>

fun pop_n :: "nat \<Rightarrow> string list \<Rightarrow> error + string list" where
  "pop_n 0 ts = Inr ts"
| "pop_n (Suc n) ts = (if ts = [] then Inl IndexError else pop_n n (butlast ts))"

text \<open>One pass of \<^verbatim>\<open>for line in f\<close>; a line keeps the newline that ends it.\<close>

definition parse_line :: "string \<Rightarrow> state \<Rightarrow> error + state" where
  "parse_line line s =
     (case re_match rex line of
        Some m \<Rightarrow>
          (case start (Project m (join '' > '' (drop 1 (m_titles s)))) of
             Inl e \<Rightarrow> Inl e
           | Inr p \<Rightarrow> Inr (s\<lparr>projects := projects s @ [p]\<rparr>))
      | None \<Rightarrow>
          (case re_match ret line of
             Some m \<Rightarrow>
               (let hrs = group m 1 in
                if length hrs > last_head_level s
                then Inr (s\<lparr>m_titles := m_titles s @ [group m 2],
                           last_head_level := length hrs\<rparr>)
                else
                  (case pop_n (last_head_level s - length hrs + 1) (m_titles s) of
                     Inl e \<Rightarrow> Inl e
                   | Inr ts \<Rightarrow> Inr (s\<lparr>m_titles := ts @ [group m 2],
                                       last_head_level := length hrs\<rparr>)))
           | None \<Rightarrow> Inr s))"

fun parse_lines :: "string list \<Rightarrow> state \<Rightarrow> error + state" where
  "parse_lines [] s = Inr s"
| "parse_lines (line # rest) s =
     (case parse_line line s of Inl e \<Rightarrow> Inl e | Inr s' \<Rightarrow> parse_lines rest s')"

definition batch_size :: nat where
  "batch_size = 10"

text \<open>\<^verbatim>\<open>range(0, n, batch_size)\<close>, and the indices of \<^verbatim>\<open>projects[i:i+batch_size]\<close>.\<close>

definition batch_starts :: "nat \<Rightarrow> nat list" where
  "batch_starts n = map (\<lambda>j. j * batch_size) [0..<(n + batch_size - 1) div batch_size]"

definition batch_indices :: "nat \<Rightarrow> nat \<Rightarrow> nat list" where
  "batch_indices i n = [i..<min (i + batch_size) n]"

text \<open>\<^verbatim>\<open>for p in batch: p.start()\<close>; the batch holds the objects of \<^verbatim>\<open>projects\<close>
  themselves.\<close>

fun start_batch :: "nat list \<Rightarrow> state \<Rightarrow> error + state" where
  "start_batch [] s = Inr s"
| "start_batch (k # ks) s =
     (case start (projects s ! k) of
        Inl e \<Rightarrow> Inl e
      | Inr p \<Rightarrow> start_batch ks (s\<lparr>projects := (projects s)[k := p]\<rparr>))"

text \<open>The polling loop sleeps a second and looks at the whole batch; it goes on as
  long as a worker of the batch is alive, so it is given fuel, and \<open>None\<close> is the
  loop that has not ended.\<close>

fun poll :: "nat \<Rightarrow> world \<Rightarrow> nat list \<Rightarrow> state \<Rightarrow> state option" where
  "poll 0 w batch s = None"
| "poll (Suc fuel) w batch s =
     (let s' = s\<lparr>clock := clock s + 1\<rparr> in
      if list_all (\<lambda>k. \<not> is_alive w (clock s') k (projects s' ! k)) batch
      then Some s' else poll fuel w batch s')"

fun batches :: "nat \<Rightarrow> world \<Rightarrow> nat list \<Rightarrow> state \<Rightarrow> (error + state) option" where
  "batches fuel w [] s = Some (Inr s)"
| "batches fuel w (i # rest) s =
     (let batch = batch_indices i (length (projects s)) in
      case start_batch batch s of
        Inl e \<Rightarrow> Some (Inl e)
      | Inr s1 \<Rightarrow>
          (case poll fuel w batch s1 of
             None \<Rightarrow> None
           | Some s2 \<Rightarrow>
               batches fuel w rest
                 (if i + batch_size < length (projects s2)
                  then s2\<lparr>clock := clock s2 + 2\<rparr> else s2)))"

text \<open>The whole script, from the lines of README.md to the list handed to the data
  frame: \<^verbatim>\<open>[p.regs for p in projects]\<close>.\<close>

definition main :: "nat \<Rightarrow> world \<Rightarrow> string list \<Rightarrow> (error + row option list) option" where
  "main fuel w lines =
     (case parse_lines lines init of
        Inl e \<Rightarrow> Some (Inl e)
      | Inr s \<Rightarrow>
          (case batches fuel w (batch_starts (length (projects s))) s of
             None \<Rightarrow> None
           | Some (Inl e) \<Rightarrow> Some (Inl e)
           | Some (Inr s') \<Rightarrow>
               Some (Inr (map (\<lambda>k. regs w (clock s') k (projects s' ! k))
                            [0..<length (projects s')]))))"

text \<open>The workers that are alive when the main thread's clock shows \<open>t\<close>.\<close>

definition active :: "world \<Rightarrow> nat \<Rightarrow> state \<Rightarrow> nat list" where
  "active w t s = filter (\<lambda>k. is_alive w t k (projects s ! k)) [0..<length (projects s)]"

section \<open>Measures on traces, the specification's formula, and example inputs\<close>

fun is_lookup :: "event \<Rightarrow> bool" where
  "is_lookup (GetRepo r) = True"
| "is_lookup e = False"

definition lookups :: "event list \<Rightarrow> nat" where
  "lookups tr = length (filter is_lookup tr)"

text \<open>The lengths of the sleeps in a trace, in order.\<close>

fun sleeps :: "event list \<Rightarrow> real list" where
  "sleeps [] = []"
| "sleeps (Sleep d # tr) = d # sleeps tr"
| "sleeps (e # tr) = sleeps tr"

text \<open>The sleep after a rate limit as the specification words it:
  \<^verbatim>\<open>max(reset_time - now, 60) + 10\<close>.\<close>

definition spec_rate_limit_sleep :: "real \<Rightarrow> real \<Rightarrow> real" where
  "spec_rate_limit_sleep reset_time t = max (reset_time - t) 60 + 10"

text \<open>The part of \<open>reu\<close> after the host, and what it accepts, written with
  \<open>takeWhile\<close> and \<open>dropWhile\<close>.\<close>

definition repo_tail :: "item list" where
  "repo_tail = [Open, One word_or_hyphen, Many word_or_hyphen, One (\<lambda>x. x = CHR ''/''),
      One hyphen_word_or_dot, Many hyphen_word_or_dot, Close, Eol]"

definition owner_repo :: "string \<Rightarrow> string option" where
  "owner_repo s =
     (let ow = takeWhile word_or_hyphen s; t = dropWhile word_or_hyphen s;
          rp = takeWhile hyphen_word_or_dot (tl t); e = dropWhile hyphen_word_or_dot (tl t)
      in if ow \<noteq> [] \<and> t \<noteq> [] \<and> hd t = CHR ''/'' \<and> rp \<noteq> [] \<and> (e = [] \<or> e = [newline])
         then Some (ow @ CHR ''/'' # rp) else None)"

text \<open>Clients: one that always answers with a rate limit; one that does so once, with
  the limit reset half a minute ahead, and then answers with a commit; one that
  always answers 403; one that answers 404; one that answers 500 with a body that is
  no dictionary; one that always answers with a commit.\<close>

definition always_limited :: client where
  "always_limited =
     \<lparr>lookup = (\<lambda>k. RateLimitExceededException), reset = (\<lambda>k. 1000), now = (\<lambda>k. 1000)\<rparr>"

definition limited_once :: client where
  "limited_once =
     \<lparr>lookup = (\<lambda>k. if k = 0 then RateLimitExceededException else Commit ''2024-03-01''),
      reset = (\<lambda>k. 1030), now = (\<lambda>k. 1000)\<rparr>"

definition always_forbidden :: client where
  "always_forbidden =
     \<lparr>lookup = (\<lambda>k. GithubException 403 NoDict), reset = (\<lambda>k. 0), now = (\<lambda>k. 0)\<rparr>"

definition not_found :: client where
  "not_found =
     \<lparr>lookup = (\<lambda>k. GithubException 404 NoDict), reset = (\<lambda>k. 0), now = (\<lambda>k. 0)\<rparr>"

definition server_error :: client where
  "server_error =
     \<lparr>lookup = (\<lambda>k. GithubException 500 NoDict), reset = (\<lambda>k. 0), now = (\<lambda>k. 0)\<rparr>"

definition commits :: client where
  "commits = \<lparr>lookup = (\<lambda>k. Commit ''2024-03-01''), reset = (\<lambda>k. 0), now = (\<lambda>k. 0)\<rparr>"

text \<open>A world in which every lookup succeeds and every worker has ended after one
  second.\<close>

definition quick_world :: world where
  "quick_world = \<lparr>client_of = (\<lambda>k. commits), lifetime = (\<lambda>k. Some 1)\<rparr>"

text \<open>Lines of README.md: one entry; the three entries of the specification's
  end-to-end example under two headings; eleven entries.\<close>

definition entry_line :: string where
  "entry_line = ''- [A](https://github.com/a/a) - first'' @ [newline]"

definition readme_three :: "string list" where
  "readme_three =
     [''# Awesome'' @ [newline], ''## Tools'' @ [newline],
      entry_line,
      ''- [B](https://cran.r-project.org/p) - second'' @ [newline],
      ''- [C](ftp://x) - third'' @ [newline]]"

definition readme_eleven :: "string list" where
  "readme_eleven = replicate 11 entry_line"

text \<open>The thread object that the reading loop makes of \<open>entry_line\<close> under the
  section \<open>sect\<close>, once started.\<close>

definition entry_project :: "string \<Rightarrow> project" where
  "entry_project sect =
     \<lparr>p_match = [''A'', ''https://github.com/a/a'', ''first''], p_section = sect,
      p_started = True\<rparr>"


section \<open>The matcher\<close>

lemma rmatch_lit:
  "rmatch (lit l @ r) s pos ms =
     (if prefix l s then rmatch r (drop (length l) s) (pos + length l) ms else None)"
proof (induction l arbitrary: s pos)
  case Nil
  then show ?case by (simp add: lit_def)
next
  case (Cons a l)
  have IH: "\<And>s pos. rmatch (map (\<lambda>c. One (\<lambda>x. x = c)) l @ r) s pos ms =
     (if prefix l s then rmatch r (drop (length l) s) (pos + length l) ms else None)"
    using Cons.IH by (simp add: lit_def)
  show ?case
  proof (cases s)
    case Nil
    then show ?thesis by (simp add: lit_def)
  next
    case (Cons c cs)
    then show ?thesis by (auto simp: lit_def IH)
  qed
qed

lemma rmatch_Many:
  assumes "\<And>c cs pos ms. p c \<Longrightarrow> rmatch r (c # cs) pos ms = None"
  shows "rmatch (Many p # r) s pos ms =
           rmatch r (dropWhile p s) (pos + length (takeWhile p s)) ms"
proof (induction s arbitrary: pos)
  case Nil
  then show ?case by simp
next
  case (Cons c cs)
  show ?case
  proof (cases "p c")
    case True
    then have "rmatch r (c # cs) pos ms = None" by (rule assms)
    then show ?thesis using True Cons.IH [of "Suc pos"] by (simp split: option.splits)
  next
    case False
    then show ?thesis by simp
  qed
qed

lemma not_word_slash: "\<not> word_or_hyphen CHR ''/''"
  by (simp add: word_or_hyphen_def is_word_def)

lemma not_hwd_newline: "\<not> hyphen_word_or_dot newline"
  by (simp add: hyphen_word_or_dot_def is_word_def newline_def)

lemma not_hwd_slash: "\<not> hyphen_word_or_dot CHR ''/''"
  by (simp add: hyphen_word_or_dot_def is_word_def)

lemma many_owner:
  "rmatch (Many word_or_hyphen # One (\<lambda>x. x = CHR ''/'') # r) s pos ms =
   rmatch (One (\<lambda>x. x = CHR ''/'') # r) (dropWhile word_or_hyphen s)
      (pos + length (takeWhile word_or_hyphen s)) ms"
  by (rule rmatch_Many) (use not_word_slash in auto)

lemma many_repo:
  "rmatch [Many hyphen_word_or_dot, Close, Eol] s pos ms =
   rmatch [Close, Eol] (dropWhile hyphen_word_or_dot s)
      (pos + length (takeWhile hyphen_word_or_dot s)) ms"
  by (rule rmatch_Many) (use not_hwd_newline in auto)

lemma rmatch_repo_tail:
  "rmatch repo_tail s pos [] =
     (case owner_repo s of Some g \<Rightarrow> Some [pos, pos + length g] | None \<Rightarrow> None)"
proof (cases s)
  case Nil
  then show ?thesis by (simp add: repo_tail_def owner_repo_def)
next
  case (Cons c cs)
  note s = Cons
  show ?thesis
  proof (cases "word_or_hyphen c")
    case False
    then show ?thesis using s by (simp add: repo_tail_def owner_repo_def)
  next
    case True
    define t where "t = dropWhile word_or_hyphen cs"
    show ?thesis
    proof (cases t)
      case Nil
      then show ?thesis using s True
        by (simp add: repo_tail_def owner_repo_def many_owner t_def [symmetric])
    next
      case (Cons d ds)
      show ?thesis
      proof (cases "d = CHR ''/''")
        case False
        then show ?thesis using s True Cons
          by (simp add: repo_tail_def owner_repo_def many_owner t_def [symmetric])
      next
        case sl: True
        show ?thesis
        proof (cases ds)
          case Nil
          then show ?thesis using s True Cons sl
            by (simp add: repo_tail_def owner_repo_def many_owner t_def [symmetric])
        next
          case (Cons x xs)
          show ?thesis
            using s True \<open>t = d # ds\<close> sl Cons
            by (auto simp: repo_tail_def owner_repo_def many_owner many_repo t_def [symmetric]
                  Let_def)
        qed
      qed
    qed
  qed
qed

lemma reu_split:
  "reu = lit ''https://github'' @ (One is_dot # (lit ''com/'' @ repo_tail))"
  by (simp add: reu_def repo_tail_def)

lemma rmatch_reu:
  "rmatch reu url 0 [] =
     (if prefix ''https://github'' url then
        (case drop 14 url of
           [] \<Rightarrow> None
         | c # cs \<Rightarrow>
             if is_dot c \<and> prefix ''com/'' cs then
               (case owner_repo (drop 4 cs) of
                  Some g \<Rightarrow> Some [19, 19 + length g]
                | None \<Rightarrow> None)
             else None)
      else None)"
proof -
  have 1: "rmatch reu url 0 [] =
     (if prefix ''https://github'' url
      then rmatch (One is_dot # (lit ''com/'' @ repo_tail)) (drop 14 url) 14 [] else None)"
    unfolding reu_split by (subst rmatch_lit) (simp add: eval_nat_numeral)
  have 2: "rmatch (lit ''com/'' @ repo_tail) cs 15 [] =
     (if prefix ''com/'' cs then rmatch repo_tail (drop 4 cs) 19 [] else None)"
    for cs
    by (simp add: rmatch_lit eval_nat_numeral)
  show ?thesis
    unfolding 1 by (cases "drop 14 url") (simp_all add: 2 rmatch_repo_tail)
qed

lemma owner_repo_SomeD:
  assumes "owner_repo s = Some g"
  shows "\<exists>ow rp e. s = ow @ ''/'' @ rp @ e \<and> g = ow @ ''/'' @ rp \<and>
           ow \<noteq> [] \<and> list_all word_or_hyphen ow \<and>
           rp \<noteq> [] \<and> list_all hyphen_word_or_dot rp \<and> (e = [] \<or> e = [newline])"
proof -
  define ow where "ow = takeWhile word_or_hyphen s"
  define t where "t = dropWhile word_or_hyphen s"
  define rp where "rp = takeWhile hyphen_word_or_dot (tl t)"
  define e where "e = dropWhile hyphen_word_or_dot (tl t)"
  from assms have c: "ow \<noteq> []" "t \<noteq> []" "hd t = CHR ''/''" "rp \<noteq> []" "e = [] \<or> e = [newline]"
    and g: "g = ow @ CHR ''/'' # rp"
    by (auto simp: owner_repo_def Let_def ow_def t_def rp_def e_def split: if_splits)
  have "s = ow @ t" by (simp add: ow_def t_def)
  moreover have "t = CHR ''/'' # tl t" using c(2,3) by (cases t) auto
  moreover have "tl t = rp @ e" by (simp add: rp_def e_def)
  ultimately have "s = ow @ ''/'' @ rp @ e" by simp
  moreover have "list_all word_or_hyphen ow"
    unfolding ow_def list_all_iff by (auto dest: set_takeWhileD)
  moreover have "list_all hyphen_word_or_dot rp"
    unfolding rp_def list_all_iff by (auto dest: set_takeWhileD)
  ultimately show ?thesis using c g by auto
qed

lemma owner_repo_SomeI:
  assumes "ow \<noteq> []" "list_all word_or_hyphen ow" "rp \<noteq> []" "list_all hyphen_word_or_dot rp"
    and "e = [] \<or> e = [newline]"
  shows "owner_repo (ow @ ''/'' @ rp @ e) = Some (ow @ ''/'' @ rp)"
proof -
  have a: "\<forall>c\<in>set ow. word_or_hyphen c" "\<forall>c\<in>set rp. hyphen_word_or_dot c"
    using assms(2,4) by (simp_all add: list_all_iff)
  have 1: "takeWhile word_or_hyphen (ow @ CHR ''/'' # rp @ e) = ow"
    using a(1) not_word_slash by (simp add: takeWhile_tail)
  have 2: "dropWhile word_or_hyphen (ow @ CHR ''/'' # rp @ e) = CHR ''/'' # rp @ e"
    using a(1) not_word_slash by (simp add: dropWhile_append3)
  have 3: "takeWhile hyphen_word_or_dot (rp @ e) = rp"
  proof (cases "e = []")
    case True
    then show ?thesis using a(2) by simp
  next
    case False
    then have "e = [newline]" using assms(5) by simp
    then show ?thesis using a(2) not_hwd_newline by (simp add: takeWhile_tail)
  qed
  have 4: "dropWhile hyphen_word_or_dot (rp @ e) = e"
  proof (cases "e = []")
    case True
    then show ?thesis using a(2) by simp
  next
    case False
    then have "e = [newline]" using assms(5) by simp
    then show ?thesis using a(2) not_hwd_newline by (simp add: dropWhile_append3)
  qed
  show ?thesis
    using assms(1,3,5) by (simp add: owner_repo_def 1 2 3 4 del: dropWhile_eq_Nil_conv)
qed

lemma owner_repo_prefix: "owner_repo s = Some g \<Longrightarrow> take (length g) s = g"
  by (drule owner_repo_SomeD) auto

lemma drop_19:
  assumes "drop 14 url = c # cs"
  shows "drop 19 url = drop 4 cs"
proof -
  have "drop 19 url = drop 5 (drop 14 url)" by simp
  then show ?thesis by (simp add: assms)
qed

lemma re_match_reu:
  "re_match reu url =
     (if prefix ''https://github'' url then
        (case drop 14 url of
           [] \<Rightarrow> None
         | c # cs \<Rightarrow>
             if is_dot c \<and> prefix ''com/'' cs then
               (case owner_repo (drop 4 cs) of Some g \<Rightarrow> Some [g] | None \<Rightarrow> None)
             else None)
      else None)"
  by (auto simp: re_match_def rmatch_reu drop_19 owner_repo_prefix
           split: list.splits option.splits)

lemma extract_repo_eq:
  "extract_repo url =
     (if prefix ''https://github'' url then
        (case drop 14 url of
           [] \<Rightarrow> ''''
         | c # cs \<Rightarrow>
             if is_dot c \<and> prefix ''com/'' cs then
               (case owner_repo (drop 4 cs) of Some g \<Rightarrow> g | None \<Rightarrow> '''')
             else '''')
      else '''')"
  by (simp add: extract_repo_def re_match_reu group_def split: list.splits option.splits)

lemma extract_repo_github_com:
  "extract_repo (''https://github.com/'' @ rest) =
     (case owner_repo rest of Some g \<Rightarrow> g | None \<Rightarrow> '''')"
  by (simp add: extract_repo_eq is_dot_def newline_def)

lemma re_match_github_com:
  "re_match reu (''https://github.com/'' @ rest) = map_option (\<lambda>g. [g]) (owner_repo rest)"
  by (simp add: re_match_reu is_dot_def newline_def split: option.splits)

lemma no_match_iff: "re_match reu url = None \<longleftrightarrow> extract_repo url = ''''"
proof -
  have "g \<noteq> []" if "owner_repo s = Some g" for s g
    using owner_repo_SomeD [OF that] by auto
  then show ?thesis
    by (auto simp: extract_repo_eq re_match_reu split: list.splits option.splits)
qed


section \<open>The fetcher\<close>

lemma attempt_range: "[0..<max_retries] = [0, 1, 2]"
  by (simp add: max_retries_def upt_rec)

lemma upt_3: "[0..<(3::nat)] = [0, 1, 2]"
  by (simp add: upt_rec)

lemma attempts_rate_limited:
  "lookup g a = RateLimitExceededException \<Longrightarrow>
   attempts g repo (a # rest) = (Inl TypeError, [GetRepo repo, GetRateLimit])"
  by simp

lemma attempts_forbidden:
  "lookup g a = GithubException 403 dat \<Longrightarrow>
   attempts g repo (a # rest) =
     (fst (attempts g repo rest),
      GetRepo repo # Sleep (real (base_delay * 2 ^ a)) # snd (attempts g repo rest))"
  by (simp add: split_beta)

lemma lookups_attempts: "lookups (snd (attempts g repo as)) \<le> length as"
  by (induction as)
     (auto simp: lookups_def split_beta split: response.splits sum.splits)

lemma sleeps_attempts:
  "set (sleeps (snd (attempts g repo as))) \<subseteq> (\<lambda>a. real (base_delay * 2 ^ a)) ` set as"
  by (induction as)
     (auto simp: split_beta split: response.splits sum.splits)

text \<open>A status other than 404 and 403 whose body is no dictionary: building the text
  to print raises, and the exception leaves the fetcher.\<close>

lemma other_status_no_dict:
  "get_last_commit server_error ''a/a'' = (Inl AttributeError, [GetRepo ''a/a''])"
  by (simp add: get_last_commit_def attempt_range server_error_def)

text \<open>
  Claim C4 says that on "rate limit exceeded" the fetcher waits and loops back to
  the lookup. It does neither: in the handler the reset time is a datetime and the
  clock a float, their difference raises \<^verbatim>\<open>TypeError\<close>, and that exception leaves
  \<^verbatim>\<open>get_last_commit\<close>. At whatever pass the rate limit is met, the call ends there:
  after one lookup when it is the first, with no sleep, no further lookup and no
  date, empty or not.
\<close>

theorem rate_limit_leaves_fetcher:
  "(lookup g a = RateLimitExceededException \<longrightarrow>
      attempts g repo (a # rest) = (Inl TypeError, [GetRepo repo, GetRateLimit])) \<and>
   (repo \<noteq> '''' \<and> lookup g 0 = RateLimitExceededException \<longrightarrow>
      get_last_commit g repo = (Inl TypeError, [GetRepo repo, GetRateLimit]) \<and>
      lookups (snd (get_last_commit g repo)) = 1 \<and>
      sleeps (snd (get_last_commit g repo)) = [])"
  by (simp add: get_last_commit_def attempt_range lookups_def)

text \<open>The hypotheses of the theorem for C4 hold for the client that always answers
  with a rate limit.\<close>

theorem rate_limit_leaves_fetcher_witness:
  "''a/a'' \<noteq> '''' \<and> lookup always_limited 0 = RateLimitExceededException \<and>
   get_last_commit always_limited ''a/a'' = (Inl TypeError, [GetRepo ''a/a'', GetRateLimit]) \<and>
   lookups (snd (get_last_commit always_limited ''a/a'')) = 1 \<and>
   sleeps (snd (get_last_commit always_limited ''a/a'')) = []"
proof -
  have h: "''a/a'' \<noteq> '''' \<and> lookup always_limited 0 = RateLimitExceededException"
    by (simp add: always_limited_def)
  show ?thesis
    using h rate_limit_leaves_fetcher [of always_limited 0 "''a/a''" "[]"]
    by (simp add: lookups_def)
qed

text \<open>
  Claim C5 says that on "rate limit exceeded" the fetcher sleeps exactly
  \<^verbatim>\<open>max(reset_time - now, 60) + 10\<close> seconds before it retries. That is never less
  than 70 seconds, and the only sleeps a call of the fetcher ever makes are the
  backoff delays of 1, 2 and 4 seconds. With the limit reset 30 seconds ahead and a
  second lookup that would succeed, the fetcher makes one lookup, asks for the rate
  limit, and ends with \<^verbatim>\<open>TypeError\<close> without having slept at all.
\<close>

theorem rate_limit_never_sleeps:
  "set (sleeps (snd (get_last_commit g repo))) \<subseteq> {1, 2, 4} \<and>
   70 \<le> spec_rate_limit_sleep reset_time t \<and>
   get_last_commit limited_once ''a/a'' = (Inl TypeError, [GetRepo ''a/a'', GetRateLimit]) \<and>
   sleeps (snd (get_last_commit limited_once ''a/a'')) = [] \<and>
   spec_rate_limit_sleep (reset limited_once 0) (now limited_once 0) = 70"
proof -
  have "set (sleeps (snd (get_last_commit g repo))) \<subseteq> {1, 2, 4}"
  proof (cases "repo = ''''")
    case True
    then show ?thesis by (simp add: get_last_commit_def)
  next
    case False
    then show ?thesis
      using sleeps_attempts [of g repo "[0, 1, 2]"]
      by (simp add: get_last_commit_def attempt_range base_delay_def)
  qed
  moreover have "70 \<le> spec_rate_limit_sleep reset_time t"
    by (simp add: spec_rate_limit_sleep_def)
  moreover have
    "get_last_commit limited_once ''a/a'' = (Inl TypeError, [GetRepo ''a/a'', GetRateLimit])"
    by (simp add: get_last_commit_def attempt_range limited_once_def)
  moreover have "spec_rate_limit_sleep (reset limited_once 0) (now limited_once 0) = 70"
    by (simp add: spec_rate_limit_sleep_def limited_once_def)
  ultimately show ?thesis by simp
qed

text \<open>
  Claim C6: when every lookup raises "forbidden" (status 403), the fetcher makes
  exactly \<open>max_retries\<close> = 3 lookups, sleeps \<open>base_delay * 2 ^ attempt\<close> after each,
  that is 1, 2 and 4 seconds, and returns the empty date.
\<close>

theorem forbidden_backoff:
  assumes "repo \<noteq> ''''" and "\<forall>k<max_retries. \<exists>dat. lookup g k = GithubException 403 dat"
  shows "get_last_commit g repo =
           (Inr '''',
            concat (map (\<lambda>attempt. [GetRepo repo, Sleep (real (base_delay * 2 ^ attempt))])
                      [0..<max_retries])) \<and>
         snd (get_last_commit g repo) =
           [GetRepo repo, Sleep 1, GetRepo repo, Sleep 2, GetRepo repo, Sleep 4] \<and>
         lookups (snd (get_last_commit g repo)) = max_retries"
proof -
  have "\<exists>dat. lookup g 0 = GithubException 403 dat" "\<exists>dat. lookup g 1 = GithubException 403 dat"
    "\<exists>dat. lookup g 2 = GithubException 403 dat"
    using assms(2) by (simp_all add: max_retries_def)
  then obtain d0 d1 d2 where
    "lookup g 0 = GithubException 403 d0" "lookup g 1 = GithubException 403 d1"
    "lookup g 2 = GithubException 403 d2"
    by blast
  then show ?thesis
    using assms(1)
    by (simp add: get_last_commit_def upt_3 base_delay_def lookups_def max_retries_def)
qed

text \<open>The hypotheses of C6 hold for the client that always answers 403.\<close>

theorem forbidden_backoff_witness:
  "''a/a'' \<noteq> '''' \<and>
   lookup always_forbidden 0 = GithubException 403 NoDict \<and>
   lookup always_forbidden 1 = GithubException 403 NoDict \<and>
   lookup always_forbidden 2 = GithubException 403 NoDict \<and>
   get_last_commit always_forbidden ''a/a'' =
     (Inr '''', [GetRepo ''a/a'', Sleep 1, GetRepo ''a/a'', Sleep 2, GetRepo ''a/a'', Sleep 4])"
proof -
  have h1: "''a/a'' \<noteq> ''''" by simp
  have h2: "\<forall>k<max_retries. \<exists>dat. lookup always_forbidden k = GithubException 403 dat"
    by (simp add: always_forbidden_def)
  show ?thesis
    using h1 h2 forbidden_backoff [OF h1 h2]
    by (simp add: prod_eq_iff attempt_range base_delay_def always_forbidden_def)
qed

text \<open>
  Claim C7: when the first lookup raises "not found" (status 404), the fetcher
  returns the empty date after exactly one lookup, without any sleep or retry.
\<close>

theorem not_found_no_retry:
  assumes "repo \<noteq> ''''" and "lookup g 0 = GithubException 404 dat"
  shows "get_last_commit g repo = (Inr '''', [GetRepo repo]) \<and>
         lookups (snd (get_last_commit g repo)) = 1"
  using assms by (simp add: get_last_commit_def attempt_range lookups_def)

text \<open>The hypotheses of C7 hold for the client that answers 404.\<close>

theorem not_found_no_retry_witness:
  "''a/a'' \<noteq> '''' \<and> lookup not_found 0 = GithubException 404 NoDict \<and>
   get_last_commit not_found ''a/a'' = (Inr '''', [GetRepo ''a/a''])"
proof -
  have h1: "''a/a'' \<noteq> ''''" by simp
  have h2: "lookup not_found 0 = GithubException 404 NoDict" by (simp add: not_found_def)
  show ?thesis using h1 h2 not_found_no_retry [OF h1 h2] by simp
qed

section \<open>The worker\<close>

lemma run_row:
  assumes "fst (run g [name, url, descr] sect) = Inr r"
  shows "row_project r = name" "row_section r = sect" "row_url r = url"
    "row_description r = descr"
    "row_github r = contains url ''github.com''"
    "row_cran r = contains url ''cran.r-project.org''"
    "row_repo r = extract_repo url"
  using assms
  by (auto simp: run_def group_def Let_def split_beta split: sum.splits)

lemma run_unresolved:
  assumes "extract_repo url = ''''"
  shows "run g [name, url, descr] sect =
           (Inr \<lparr>row_project = name, row_section = sect,
                 row_last_commit =
                   (if contains url ''cran.r-project.org'' then ''1999-01-01'' else ''''),
                 row_url = url, row_description = descr,
                 row_github = contains url ''github.com'',
                 row_cran = contains url ''cran.r-project.org'', row_repo = ''''\<rparr>,
            [Sleep (1 / 10)])"
  using assms
  by (simp add: run_def group_def Let_def get_cran_publication_date_def get_last_commit_def)

text \<open>A lookup that succeeds at once, and the first row of the specification's
  end-to-end example.\<close>

lemma first_lookup_succeeds:
  "repo \<noteq> '''' \<Longrightarrow> lookup g 0 = Commit d \<Longrightarrow>
   get_last_commit g repo = (Inr d, [GetRepo repo])"
  by (simp add: get_last_commit_def attempt_range)

lemma example_first_row:
  "run commits [''A'', ''https://github.com/a/a'', ''first''] ''Tools'' =
     (Inr \<lparr>row_project = ''A'', row_section = ''Tools'', row_last_commit = ''2024-03-01'',
           row_url = ''https://github.com/a/a'', row_description = ''first'',
           row_github = True, row_cran = False, row_repo = ''a/a''\<rparr>,
      [Sleep (1 / 10), GetRepo ''a/a''])"
proof -
  have "extract_repo ''https://github.com/a/a'' = ''a/a''"
    by (simp add: extract_repo_github_com [of "''a/a''", simplified] owner_repo_def
          word_or_hyphen_def hyphen_word_or_dot_def is_word_def newline_def)
  then show ?thesis
    by (simp add: run_def group_def get_last_commit_def attempt_range commits_def Let_def)
qed

text \<open>A worker whose lookup meets the rate limit ends with the exception and stores
  no row.\<close>

lemma run_rate_limited:
  "run always_limited [''A'', ''https://github.com/a/a'', ''first''] ''Tools'' =
     (Inl TypeError, [Sleep (1 / 10), GetRepo ''a/a'', GetRateLimit])"
proof -
  have "extract_repo ''https://github.com/a/a'' = ''a/a''"
    by (simp add: extract_repo_github_com [of "''a/a''", simplified] owner_repo_def
          word_or_hyphen_def hyphen_word_or_dot_def is_word_def newline_def)
  then show ?thesis
    by (simp add: run_def group_def get_last_commit_def attempt_range always_limited_def
          Let_def)
qed

text \<open>
  Claim C9: for an entry whose URL contains \<^verbatim>\<open>cran.r-project.org\<close> and from which no
  repository is extracted, the worker stores the date \<^verbatim>\<open>1999-01-01\<close> and makes no
  lookup, whatever the client would answer; for an entry that is neither (such as
  \<^verbatim>\<open>ftp://x\<close>) it stores the empty date, again without a lookup.
\<close>

theorem registry_sentinel:
  "(contains url ''cran.r-project.org'' \<and> extract_repo url = '''' \<longrightarrow>
      fst (run g [name, url, descr] sect) =
        Inr \<lparr>row_project = name, row_section = sect, row_last_commit = ''1999-01-01'',
             row_url = url, row_description = descr,
             row_github = contains url ''github.com'', row_cran = True, row_repo = ''''\<rparr> \<and>
      snd (run g [name, url, descr] sect) = [Sleep (1 / 10)] \<and>
      lookups (snd (run g [name, url, descr] sect)) = 0) \<and>
   (\<not> contains url ''cran.r-project.org'' \<and> extract_repo url = '''' \<longrightarrow>
      fst (run g [name, url, descr] sect) =
        Inr \<lparr>row_project = name, row_section = sect, row_last_commit = '''',
             row_url = url, row_description = descr,
             row_github = contains url ''github.com'', row_cran = False, row_repo = ''''\<rparr> \<and>
      snd (run g [name, url, descr] sect) = [Sleep (1 / 10)] \<and>
      lookups (snd (run g [name, url, descr] sect)) = 0)"
  by (simp add: run_unresolved lookups_def)

text \<open>The hypotheses of C9 hold at the two URLs of the specification's example; the
  client is one whose lookups would meet the rate limit.\<close>

theorem registry_sentinel_witness:
  "contains ''https://cran.r-project.org/p'' ''cran.r-project.org'' \<and>
   extract_repo ''https://cran.r-project.org/p'' = '''' \<and>
   fst (run always_limited [''B'', ''https://cran.r-project.org/p'', ''second''] ''Tools'') =
     Inr \<lparr>row_project = ''B'', row_section = ''Tools'', row_last_commit = ''1999-01-01'',
          row_url = ''https://cran.r-project.org/p'', row_description = ''second'',
          row_github = False, row_cran = True, row_repo = ''''\<rparr> \<and>
   \<not> contains ''ftp://x'' ''cran.r-project.org'' \<and> extract_repo ''ftp://x'' = '''' \<and>
   fst (run always_limited [''C'', ''ftp://x'', ''third''] ''Tools'') =
     Inr \<lparr>row_project = ''C'', row_section = ''Tools'', row_last_commit = '''',
          row_url = ''ftp://x'', row_description = ''third'',
          row_github = False, row_cran = False, row_repo = ''''\<rparr>"
proof -
  have h1: "contains ''https://cran.r-project.org/p'' ''cran.r-project.org''" by simp
  have h2: "extract_repo ''https://cran.r-project.org/p'' = ''''" by (simp add: extract_repo_eq)
  have h3: "\<not> contains ''ftp://x'' ''cran.r-project.org''" by simp
  have h4: "extract_repo ''ftp://x'' = ''''" by (simp add: extract_repo_eq)
  have g1: "\<not> contains ''https://cran.r-project.org/p'' ''github.com''" by simp
  have g2: "\<not> contains ''ftp://x'' ''github.com''" by simp
  show ?thesis
    using h1 h2 h3 h4 g1 g2
      registry_sentinel [of "''https://cran.r-project.org/p''" always_limited "''B''"
        "''second''" "''Tools''"]
      registry_sentinel [of "''ftp://x''" always_limited "''C''" "''third''" "''Tools''"]
    by simp
qed

section \<open>The resolver\<close>

lemma re_match_reu_SomeD:
  assumes "re_match reu url \<noteq> None"
  shows "\<exists>c ow rp e. url = ''https://github'' @ [c] @ ''com/'' @ ow @ ''/'' @ rp @ e \<and>
           c \<noteq> newline \<and> ow \<noteq> [] \<and> list_all word_or_hyphen ow \<and>
           rp \<noteq> [] \<and> list_all hyphen_word_or_dot rp \<and> (e = [] \<or> e = [newline])"
proof -
  from assms have p: "prefix ''https://github'' url"
    by (simp add: re_match_reu split: if_splits)
  then obtain r1 where r1: "url = ''https://github'' @ r1" by (auto simp: prefix_def)
  from assms r1 obtain c cs where r2: "r1 = c # cs" "is_dot c" "prefix ''com/'' cs"
    by (cases r1) (auto simp: re_match_reu split: if_splits)
  then obtain r3 where r3: "cs = ''com/'' @ r3" by (auto simp: prefix_def)
  from assms r1 r2 r3 obtain g where g: "owner_repo r3 = Some g"
    by (auto simp: re_match_reu split: if_splits option.splits)
  from owner_repo_SomeD [OF g] r1 r2 r3 show ?thesis
    by (auto simp: is_dot_def)
qed

text \<open>
  Claim C8 as stated says that the repository name is trimmed of known suffixes.
  The resolver returns the group as it is matched: \<^verbatim>\<open>.git\<close> stays.
\<close>

theorem extract_repo_keeps_suffix:
  "extract_repo ''https://github.com/acme/widget.git'' = ''acme/widget.git'' \<and>
   extract_repo ''https://github.com/acme/widget.git'' \<noteq> ''acme/widget''"
  by (simp add: extract_repo_github_com [of "''acme/widget.git''", simplified] owner_repo_def
        word_or_hyphen_def hyphen_word_or_dot_def is_word_def newline_def)

text \<open>Two more inputs on which the pattern of the source matches: the dot of
  \<^verbatim>\<open>github.com\<close> stands for any character, and \<^verbatim>\<open>$\<close> accepts a final newline.\<close>

lemma extract_repo_unescaped_dot: "extract_repo ''https://githubXcom/a/b'' = ''a/b''"
  by (simp add: extract_repo_eq owner_repo_def is_dot_def
        word_or_hyphen_def hyphen_word_or_dot_def is_word_def newline_def)

lemma extract_repo_final_newline:
  "extract_repo (''https://github.com/a/b'' @ [newline]) = ''a/b''"
  by (simp add: extract_repo_eq owner_repo_def is_dot_def
        word_or_hyphen_def hyphen_word_or_dot_def is_word_def newline_def)

text \<open>
  Claim C8, amended: the resolver is a total function on strings. For every URL
  \<^verbatim>\<open>https://github.com/owner/repo\<close> with \<open>owner\<close> a non-empty run of word characters
  and hyphens and \<open>repo\<close> a non-empty run of word characters, hyphens and dots, it
  returns \<open>owner/repo\<close> as written, with no suffix trimmed. For every URL on which
  the pattern does not match it returns the empty string, and the pattern matches no
  URL but those made of \<^verbatim>\<open>https://github\<close>, one character, \<^verbatim>\<open>com/\<close>, such an owner, a
  slash and such a repo, with at most a newline after it: every other URL,
  package-registry URLs and non-URLs among them, gives the empty string.
\<close>

theorem extract_repo_strict:
  "(owner \<noteq> [] \<and> list_all word_or_hyphen owner \<and>
    repo \<noteq> [] \<and> list_all hyphen_word_or_dot repo \<longrightarrow>
      extract_repo (''https://github.com/'' @ owner @ ''/'' @ repo) = owner @ ''/'' @ repo) \<and>
   (re_match reu url = None \<longrightarrow> extract_repo url = '''') \<and>
   (\<not> (\<exists>c ow rp e. url = ''https://github'' @ [c] @ ''com/'' @ ow @ ''/'' @ rp @ e \<and>
           c \<noteq> newline \<and> ow \<noteq> [] \<and> list_all word_or_hyphen ow \<and>
           rp \<noteq> [] \<and> list_all hyphen_word_or_dot rp \<and> (e = [] \<or> e = [newline])) \<longrightarrow>
      re_match reu url = None \<and> extract_repo url = '''')"
proof -
  have 1: "extract_repo (''https://github.com/'' @ owner @ ''/'' @ repo) = owner @ ''/'' @ repo"
    if "owner \<noteq> []" "list_all word_or_hyphen owner" "repo \<noteq> []"
      "list_all hyphen_word_or_dot repo"
    using owner_repo_SomeI [OF that, of "[]"]
    by (simp add: extract_repo_github_com del: append.simps)
  have 2: "extract_repo url = ''''" if "re_match reu url = None"
    using that by (simp add: no_match_iff)
  have 3: "re_match reu url = None"
    if "\<not> (\<exists>c ow rp e. url = ''https://github'' @ [c] @ ''com/'' @ ow @ ''/'' @ rp @ e \<and>
           c \<noteq> newline \<and> ow \<noteq> [] \<and> list_all word_or_hyphen ow \<and>
           rp \<noteq> [] \<and> list_all hyphen_word_or_dot rp \<and> (e = [] \<or> e = [newline]))"
    using that re_match_reu_SomeD [of url] by blast
  show ?thesis
  proof (intro conjI impI)
    assume "owner \<noteq> [] \<and> list_all word_or_hyphen owner \<and>
      repo \<noteq> [] \<and> list_all hyphen_word_or_dot repo"
    then show "extract_repo (''https://github.com/'' @ owner @ ''/'' @ repo)
      = owner @ ''/'' @ repo"
      by (intro 1) simp_all
  next
    assume "re_match reu url = None"
    then show "extract_repo url = ''''" by (rule 2)
  next
    assume "\<not> (\<exists>c ow rp e. url = ''https://github'' @ [c] @ ''com/'' @ ow @ ''/'' @ rp @ e \<and>
           c \<noteq> newline \<and> ow \<noteq> [] \<and> list_all word_or_hyphen ow \<and>
           rp \<noteq> [] \<and> list_all hyphen_word_or_dot rp \<and> (e = [] \<or> e = [newline]))"
    then show "re_match reu url = None" by (rule 3)
  next
    assume "\<not> (\<exists>c ow rp e. url = ''https://github'' @ [c] @ ''com/'' @ ow @ ''/'' @ rp @ e \<and>
           c \<noteq> newline \<and> ow \<noteq> [] \<and> list_all word_or_hyphen ow \<and>
           rp \<noteq> [] \<and> list_all hyphen_word_or_dot rp \<and> (e = [] \<or> e = [newline]))"
    then have "re_match reu url = None" by (rule 3)
    then show "extract_repo url = ''''" by (rule 2)
  qed
qed

text \<open>The hypotheses of C8 (amended) hold at the URLs of the specification's
  examples, at the bare host and at another host that begins alike.\<close>

theorem extract_repo_strict_witness:
  "''acme'' \<noteq> '''' \<and> list_all word_or_hyphen ''acme'' \<and>
   ''widget.git'' \<noteq> '''' \<and> list_all hyphen_word_or_dot ''widget.git'' \<and>
   extract_repo ''https://github.com/acme/widget.git'' = ''acme/widget.git'' \<and>
   re_match reu ''https://cran.r-project.org/package=x'' = None \<and>
   extract_repo ''https://cran.r-project.org/package=x'' = '''' \<and>
   re_match reu ''not a url'' = None \<and>
   extract_repo ''not a url'' = '''' \<and>
   re_match reu ''https://github.com'' = None \<and>
   extract_repo ''https://github.com'' = '''' \<and>
   re_match reu ''https://github.io/a/b'' = None \<and>
   extract_repo ''https://github.io/a/b'' = ''''"
proof -
  let ?shape = "\<lambda>url. \<exists>c ow rp e. url = ''https://github'' @ [c] @ ''com/'' @ ow @ ''/'' @ rp @ e \<and>
           c \<noteq> newline \<and> ow \<noteq> [] \<and> list_all word_or_hyphen ow \<and>
           rp \<noteq> [] \<and> list_all hyphen_word_or_dot rp \<and> (e = [] \<or> e = [newline])"
  have h1: "''acme'' \<noteq> '''' \<and> list_all word_or_hyphen ''acme'' \<and>
            ''widget.git'' \<noteq> '''' \<and> list_all hyphen_word_or_dot ''widget.git''"
    by (simp add: word_or_hyphen_def hyphen_word_or_dot_def is_word_def)
  have h2: "\<not> ?shape ''https://cran.r-project.org/package=x''" by simp
  have h3: "\<not> ?shape ''not a url''" by simp
  have h4: "\<not> ?shape ''https://github.com''" by simp
  have h5: "\<not> ?shape ''https://github.io/a/b''" by simp
  show ?thesis
    using h1 h2 h3 h4 h5
      extract_repo_strict [of "''acme''" "''widget.git''" "''https://cran.r-project.org/package=x''"]
      extract_repo_strict [of "''acme''" "''widget.git''" "''not a url''"]
      extract_repo_strict [of "''acme''" "''widget.git''" "''https://github.com''"]
      extract_repo_strict [of "''acme''" "''widget.git''" "''https://github.io/a/b''"]
    by simp
qed

section \<open>The flags of a row\<close>

text \<open>A trailing slash, a query string and further path segments each keep the
  pattern from matching.\<close>

lemma no_match_trailing_slash:
  assumes "url \<noteq> []" and "last url = CHR ''/''"
  shows "re_match reu url = None"
proof (rule ccontr)
  assume "re_match reu url \<noteq> None"
  from re_match_reu_SomeD [OF this] obtain c ow rp e where
    u: "url = ''https://github'' @ [c] @ ''com/'' @ ow @ ''/'' @ rp @ e"
    and rp: "rp \<noteq> []" "list_all hyphen_word_or_dot rp" and e: "e = [] \<or> e = [newline]"
    by blast
  have "last url = last (rp @ e)" using u rp(1) by simp
  then have "last url = last rp \<or> last url = newline" using e rp(1) by auto
  moreover have "last rp \<in> set rp" using rp(1) by simp
  then have "last rp \<noteq> CHR ''/''" using rp(2) not_hwd_slash by (auto simp: list_all_iff)
  moreover have "newline \<noteq> CHR ''/''" by (simp add: newline_def)
  ultimately show False using assms(2) by auto
qed

lemma not_word_query: "\<not> word_or_hyphen CHR ''?''" "\<not> hyphen_word_or_dot CHR ''?''"
  by (simp_all add: word_or_hyphen_def hyphen_word_or_dot_def is_word_def)

lemma no_match_query:
  assumes "CHR ''?'' \<in> set rest"
  shows "re_match reu (''https://github.com/'' @ rest) = None"
proof (cases "owner_repo rest")
  case None
  then show ?thesis by (simp add: re_match_github_com del: append.simps)
next
  case (Some g)
  from owner_repo_SomeD [OF Some] obtain ow rp e where
    d: "rest = ow @ ''/'' @ rp @ e" "list_all word_or_hyphen ow"
       "list_all hyphen_word_or_dot rp" "e = [] \<or> e = [newline]"
    by blast
  have "CHR ''?'' \<notin> set ow" "CHR ''?'' \<notin> set rp" "CHR ''?'' \<notin> set e"
    using d(2,3,4) not_word_query by (auto simp: list_all_iff newline_def)
  with assms d(1) show ?thesis by auto
qed

lemma no_match_extra_segment:
  "re_match reu (''https://github.com/'' @ a @ ''/'' @ b @ ''/'' @ c) = None"
proof (cases "owner_repo (a @ ''/'' @ b @ ''/'' @ c)")
  case None
  then show ?thesis by (simp add: re_match_github_com del: append.simps)
next
  case (Some g)
  from owner_repo_SomeD [OF Some] obtain ow rp e where
    d: "a @ ''/'' @ b @ ''/'' @ c = ow @ ''/'' @ rp @ e" "list_all word_or_hyphen ow"
       "list_all hyphen_word_or_dot rp" "e = [] \<or> e = [newline]"
    by blast
  let ?n = "\<lambda>s. length (filter (\<lambda>x. x = CHR ''/'') s)"
  have "?n ow = 0" "?n rp = 0" "?n e = 0"
    using d(2,3,4) not_word_slash not_hwd_slash
    by (auto simp: list_all_iff newline_def filter_empty_conv)
  then have one: "?n (ow @ ''/'' @ rp @ e) = 1" by simp
  have two: "2 \<le> ?n (a @ ''/'' @ b @ ''/'' @ c)" by simp
  have "?n (a @ ''/'' @ b @ ''/'' @ c) = ?n (ow @ ''/'' @ rp @ e)" by (simp only: d(1))
  with one two have False by linarith
  then show ?thesis ..
qed

text \<open>
  Claim C10: the \<open>github\<close> and \<open>cran\<close> flags of a row are substring tests on the
  URL and do not depend on the resolver. For every entry whose URL contains
  \<^verbatim>\<open>github.com\<close> but on which the pattern does not match, the row has \<open>github\<close>
  true and \<open>repo\<close> empty, and, when the URL does not contain
  \<^verbatim>\<open>cran.r-project.org\<close> either, \<open>last_commit\<close> empty with no lookup made.
\<close>

theorem github_flag_substring:
  "(fst (run g [name, url, descr] sect) = Inr r \<longrightarrow>
      row_github r = contains url ''github.com'' \<and>
      row_cran r = contains url ''cran.r-project.org'') \<and>
   (contains url ''github.com'' \<and> re_match reu url = None \<longrightarrow>
      (\<exists>r'. fst (run g [name, url, descr] sect) = Inr r' \<and>
         row_github r' \<and> row_repo r' = '''' \<and>
         (\<not> contains url ''cran.r-project.org'' \<longrightarrow> row_last_commit r' = '''')) \<and>
      (\<not> contains url ''cran.r-project.org'' \<longrightarrow>
         snd (run g [name, url, descr] sect) = [Sleep (1 / 10)] \<and>
         lookups (snd (run g [name, url, descr] sect)) = 0))"
proof -
  have 1: "row_github r = contains url ''github.com'' \<and>
           row_cran r = contains url ''cran.r-project.org''"
    if "fst (run g [name, url, descr] sect) = Inr r"
    using run_row(5,6) [OF that] by simp
  have 2: "(\<exists>r'. fst (run g [name, url, descr] sect) = Inr r' \<and>
         row_github r' \<and> row_repo r' = '''' \<and>
         (\<not> contains url ''cran.r-project.org'' \<longrightarrow> row_last_commit r' = '''')) \<and>
      (\<not> contains url ''cran.r-project.org'' \<longrightarrow>
         snd (run g [name, url, descr] sect) = [Sleep (1 / 10)] \<and>
         lookups (snd (run g [name, url, descr] sect)) = 0)"
    if "contains url ''github.com''" "re_match reu url = None"
  proof -
    have "extract_repo url = ''''" using that(2) by (simp add: no_match_iff)
    from run_unresolved [OF this, of g name descr sect] that(1) show ?thesis
      by (simp add: lookups_def)
  qed
  from 1 2 show ?thesis by blast
qed

text \<open>The hypotheses of C10 hold at a URL with further path segments.\<close>

theorem github_flag_substring_witness:
  "contains ''https://github.com/a/b/tree/main'' ''github.com'' \<and>
   re_match reu ''https://github.com/a/b/tree/main'' = None \<and>
   \<not> contains ''https://github.com/a/b/tree/main'' ''cran.r-project.org'' \<and>
   fst (run commits [''A'', ''https://github.com/a/b/tree/main'', ''d''] ''s'') =
     Inr \<lparr>row_project = ''A'', row_section = ''s'', row_last_commit = '''',
          row_url = ''https://github.com/a/b/tree/main'', row_description = ''d'',
          row_github = True, row_cran = False, row_repo = ''''\<rparr> \<and>
   snd (run commits [''A'', ''https://github.com/a/b/tree/main'', ''d''] ''s'') = [Sleep (1 / 10)]"
proof -
  have h1: "contains ''https://github.com/a/b/tree/main'' ''github.com''" by simp
  have h2: "re_match reu ''https://github.com/a/b/tree/main'' = None"
    using no_match_extra_segment [of "''a''" "''b''" "''tree/main''"] by simp
  have h3: "\<not> contains ''https://github.com/a/b/tree/main'' ''cran.r-project.org''" by simp
  obtain r' where r': "fst (run commits [''A'', ''https://github.com/a/b/tree/main'', ''d''] ''s'')
      = Inr r'" "row_github r'" "row_repo r' = ''''" "row_last_commit r' = ''''"
    and tr: "snd (run commits [''A'', ''https://github.com/a/b/tree/main'', ''d''] ''s'')
      = [Sleep (1 / 10)]"
    using h1 h2 h3
      github_flag_substring [of commits "''A''" "''https://github.com/a/b/tree/main''" "''d''"
        "''s''"]
    by blast
  have "row_project r' = ''A''" "row_section r' = ''s''"
    "row_url r' = ''https://github.com/a/b/tree/main''" "row_description r' = ''d''"
    "row_cran r' = False"
    using run_row [OF r'(1)] h3 by simp_all
  with r' have "r' = \<lparr>row_project = ''A'', row_section = ''s'', row_last_commit = '''',
          row_url = ''https://github.com/a/b/tree/main'', row_description = ''d'',
          row_github = True, row_cran = False, row_repo = ''''\<rparr>"
    by (cases r') simp
  with r'(1) tr h1 h2 h3 show ?thesis by simp
qed

section \<open>The script\<close>

lemma start_started: "start p = Inr p' \<Longrightarrow> p_started p'"
  by (auto simp: start_def split: if_splits)

lemma start_again: "p_started p \<Longrightarrow> start p = Inl RuntimeError"
  by (simp add: start_def)

lemma parse_line_started:
  assumes "parse_line line s = Inr s'" and "\<forall>p\<in>set (projects s). p_started p"
  shows "\<forall>p\<in>set (projects s'). p_started p"
  using assms
  by (auto simp: parse_line_def Let_def split: option.splits sum.splits if_splits
           dest: start_started)

lemma parse_lines_started:
  "parse_lines lines s = Inr s' \<Longrightarrow> \<forall>p\<in>set (projects s). p_started p \<Longrightarrow>
   \<forall>p\<in>set (projects s'). p_started p"
proof (induction lines arbitrary: s)
  case Nil
  then show ?case by simp
next
  case (Cons l ls)
  from Cons.prems(1) obtain s1 where s1: "parse_line l s = Inr s1" "parse_lines ls s1 = Inr s'"
    by (auto split: sum.splits)
  from parse_line_started [OF s1(1) Cons.prems(2)] Cons.IH [OF s1(2)] show ?case by blast
qed

lemma batch_starts_Cons:
  assumes "0 < n"
  shows "\<exists>rest. batch_starts n = 0 # rest"
proof -
  have "0 < (n + batch_size - 1) div batch_size"
    using assms by (simp add: batch_size_def div_greater_zero_iff)
  then show ?thesis
    by (simp add: batch_starts_def upt_conv_Cons)
qed

lemma batch_indices_Cons: "0 < n \<Longrightarrow> \<exists>rest. batch_indices 0 n = 0 # rest"
  by (simp add: batch_indices_def batch_size_def upt_conv_Cons)

lemma batches_restart:
  assumes "projects s \<noteq> []" and "\<forall>p\<in>set (projects s). p_started p"
  shows "batches fuel w (batch_starts (length (projects s))) s = Some (Inl RuntimeError)"
proof -
  have n: "0 < length (projects s)" using assms(1) by simp
  obtain r1 where r1: "batch_starts (length (projects s)) = 0 # r1"
    using batch_starts_Cons [OF n] by blast
  obtain r2 where r2: "batch_indices 0 (length (projects s)) = 0 # r2"
    using batch_indices_Cons [OF n] by blast
  have "p_started (projects s ! 0)" using assms n by simp
  then have "start (projects s ! 0) = Inl RuntimeError" by (rule start_again)
  then show ?thesis by (simp add: r1 r2)
qed

lemma main_restart:
  assumes "parse_lines lines init = Inr s" and "projects s \<noteq> []"
  shows "main fuel w lines = Some (Inl RuntimeError)"
proof -
  have "\<forall>p\<in>set (projects init). p_started p" by (simp add: init_def)
  from parse_lines_started [OF assms(1) this]
  have "\<forall>p\<in>set (projects s). p_started p" .
  from batches_restart [OF assms(2) this] assms(1) show ?thesis
    by (simp add: main_def)
qed

lemma main_no_entries:
  assumes "parse_lines lines init = Inr s" and "projects s = []"
  shows "main fuel w lines = Some (Inr [])"
  using assms by (simp add: main_def batch_starts_def batch_size_def)

text \<open>The reading loop on the example lines.\<close>

lemma rex_entry_line:
  "re_match rex entry_line = Some [''A'', ''https://github.com/a/a'', ''first'']"
  by code_simp

lemma parse_entry_line:
  "parse_line entry_line s =
     Inr (s\<lparr>projects := projects s @ [entry_project (join '' > '' (drop 1 (m_titles s)))]\<rparr>)"
  by (simp add: parse_line_def rex_entry_line start_def Project_def entry_project_def)

lemma parse_entry_lines:
  "parse_lines (replicate n entry_line) s =
     Inr (s\<lparr>projects :=
            projects s @ replicate n (entry_project (join '' > '' (drop 1 (m_titles s))))\<rparr>)"
proof (induction n arbitrary: s)
  case 0
  then show ?case by simp
next
  case (Suc n)
  show ?case
    by (simp add: parse_entry_line Suc.IH replicate_app_Cons_same)
qed

lemma parse_three:
  "parse_lines readme_three init =
     Inr \<lparr>projects =
            [\<lparr>p_match = [''A'', ''https://github.com/a/a'', ''first''],
               p_section = ''Tools'', p_started = True\<rparr>,
             \<lparr>p_match = [''B'', ''https://cran.r-project.org/p'', ''second''],
               p_section = ''Tools'', p_started = True\<rparr>,
             \<lparr>p_match = [''C'', ''ftp://x'', ''third''],
               p_section = ''Tools'', p_started = True\<rparr>],
          m_titles = [''Awesome'', ''Tools''], last_head_level = 2, clock = 0\<rparr>"
  by code_simp

text \<open>A heading that jumps back over more levels than there are titles ends the
  reading loop with \<^verbatim>\<open>IndexError\<close>.\<close>

lemma parse_heading_jump:
  "parse_lines [''## A'' @ [newline], ''# B'' @ [newline]] init = Inl IndexError"
  by code_simp

text \<open>
  Claim C1 says that the output holds exactly one row per input entry, in input
  order. On the three entries of the specification's end-to-end example the reading
  loop builds three projects and starts each; the batch loop then starts the first
  one again, which raises \<^verbatim>\<open>RuntimeError\<close>, so the script ends before the rows are
  assembled and there is no output, whatever the workers and the client do.
\<close>

theorem three_entries_no_rows:
  "(\<exists>s. parse_lines readme_three init = Inr s \<and> length (projects s) = 3) \<and>
   main fuel w readme_three = Some (Inl RuntimeError) \<and>
   (\<nexists>rows. main fuel w readme_three = Some (Inr rows))"
proof -
  have "main fuel w readme_three = Some (Inl RuntimeError)"
    by (rule main_restart [OF parse_three]) simp
  then show ?thesis using parse_three by simp
qed

text \<open>
  Claim C2 says that at most \<open>batch_size\<close> = 10 workers are ever active together and
  that a batch starts only when the one before has ended. On eleven entries the
  reading loop has started all eleven workers before the main thread has waited at
  all: with workers that each live for a second, eleven are alive when the batch loop
  is reached, and the first \<^verbatim>\<open>p.start()\<close> of the first batch raises \<^verbatim>\<open>RuntimeError\<close>,
  so no barrier and no pause between batches is ever run.
\<close>

theorem eleven_workers_started_at_once:
  "(\<exists>s. parse_lines readme_eleven init = Inr s \<and> clock s = 0 \<and>
        length (active quick_world 0 s) = 11 \<and> batch_size < length (active quick_world 0 s)) \<and>
   main fuel quick_world readme_eleven = Some (Inl RuntimeError)"
proof -
  define s where "s = init\<lparr>projects := replicate 11 (entry_project '''')\<rparr>"
  have p: "parse_lines readme_eleven init = Inr s"
    by (simp add: readme_eleven_def parse_entry_lines s_def init_def)
  have "\<forall>k\<in>set [0..<length (projects s)]. is_alive quick_world 0 k (projects s ! k)"
    by (simp add: s_def is_alive_def quick_world_def entry_project_def)
  then have a: "active quick_world 0 s = [0..<length (projects s)]"
    unfolding active_def by (simp only: filter_True)
  have l: "length (projects s) = 11" by (simp add: s_def)
  have c: "clock s = 0" by (simp add: s_def init_def)
  have "projects s \<noteq> []" using l by auto
  from main_restart [OF p this] p a l c show ?thesis
    by (simp add: batch_size_def)
qed

text \<open>
  Claim C3 says that the pipeline always ends normally with a complete result set.
  For every README.md that the reading loop gets through and that holds at least one
  entry, the script ends with \<^verbatim>\<open>RuntimeError\<close> instead, for every world: even when
  every lookup succeeds.
\<close>

theorem entry_restart_raises:
  assumes "parse_lines lines init = Inr s" and "projects s \<noteq> []"
  shows "main fuel w lines = Some (Inl RuntimeError)"
  using assms by (rule main_restart)

text \<open>The hypotheses of the theorem for C3 hold for a README.md of one entry.\<close>

theorem entry_restart_raises_witness:
  "parse_lines [entry_line] init = Inr (init\<lparr>projects := [entry_project '''']\<rparr>) \<and>
   projects (init\<lparr>projects := [entry_project '''']\<rparr>) \<noteq> [] \<and>
   main 1 quick_world [entry_line] = Some (Inl RuntimeError)"
proof -
  have h1: "parse_lines [entry_line] init = Inr (init\<lparr>projects := [entry_project '''']\<rparr>)"
    by (simp add: parse_entry_line init_def)
  have h2: "projects (init\<lparr>projects := [entry_project '''']\<rparr>) \<noteq> []" by simp
  show ?thesis
    using h1 h2 entry_restart_raises [OF h1 h2, of 1 quick_world] by simp
qed

end
